theory Spec2Isabelle
  imports Main "HOL-Library.Word"
begin

section \<open>Package sys: the in-memory file system and the fake path walker\<close>

text \<open>
  The Go package \<^verbatim>\<open>sys\<close> offers an interface \<^verbatim>\<open>FS\<close> to a file system and an interface
  \<^verbatim>\<open>FP\<close> to \<^verbatim>\<open>filepath.Walk\<close>, each with an implementation on the host and a fake for
  tests. This theory embeds the fakes: \<^verbatim>\<open>FakeFS\<close>, \<^verbatim>\<open>inMemoryCloser\<close>, \<^verbatim>\<open>FakeFI\<close> and
  \<^verbatim>\<open>FakeFP\<close>. The adapters \<^verbatim>\<open>realFS\<close> and \<^verbatim>\<open>realFP\<close> only forward to the host and have
  no behaviour of their own.
\<close>

subsection \<open>Values of the Go runtime\<close>

type_synonym byte = "8 word"

text \<open>\<^verbatim>\<open>os.FileMode\<close> is a \<^verbatim>\<open>uint32\<close>. The fake accepts it and never looks at it.\<close>

type_synonym FileMode = "32 word"

text \<open>
  The error values the fake file system returns: its own \<^verbatim>\<open>FakeFileNotFound\<close> struct with
  the field \<^verbatim>\<open>Filename\<close>, and the host's sentinel \<^verbatim>\<open>os.ErrNotExist\<close>. A Go \<^verbatim>\<open>error\<close> that is
  \<^verbatim>\<open>nil\<close> is \<open>None\<close> of \<open>error option\<close>.
\<close>

datatype error = FakeFileNotFound (Filename: string) | ErrNotExist

text \<open>
  Run-time panics of the statements the package executes. Writing to an entry of a
  \<^verbatim>\<open>nil\<close> map panics (reading from one and deleting from one do not), and so does a method
  of \<^verbatim>\<open>bytes.Buffer\<close> called through a \<^verbatim>\<open>nil\<close> pointer.
\<close>

datatype panic = AssignToNilMap | NilPointerDereference

subsection \<open>Go maps\<close>

text \<open>
  A value of a Go map type is \<^verbatim>\<open>nil\<close> (the zero value, \<open>None\<close> here) or a reference to a
  table (\<open>Some m\<close>). \<^verbatim>\<open>v, ok := m[k]\<close> reads \<^verbatim>\<open>ok = false\<close> from a \<^verbatim>\<open>nil\<close> map,
  \<^verbatim>\<open>m[k] = v\<close> panics on it, and \<^verbatim>\<open>delete(m, k)\<close> does nothing to it.
\<close>

type_synonym ('k, 'v) gomap = "('k \<rightharpoonup> 'v) option"

definition lookup :: "('k, 'v) gomap \<Rightarrow> 'k \<Rightarrow> 'v option" where
  "lookup m k = (case m of None \<Rightarrow> None | Some t \<Rightarrow> t k)"

definition assign :: "('k, 'v) gomap \<Rightarrow> 'k \<Rightarrow> 'v \<Rightarrow> panic + ('k, 'v) gomap" where
  "assign m k v = (case m of None \<Rightarrow> Inl AssignToNilMap | Some t \<Rightarrow> Inr (Some (t(k \<mapsto> v))))"

definition delete :: "('k, 'v) gomap \<Rightarrow> 'k \<Rightarrow> ('k, 'v) gomap" where
  "delete m k = (case m of None \<Rightarrow> None | Some t \<Rightarrow> Some (t(k := None)))"

subsection \<open>The store of byte buffers\<close>

text \<open>
  \<^verbatim>\<open>FakeFS.Files\<close> holds pointers to \<^verbatim>\<open>bytes.Buffer\<close>, and the handle that \<^verbatim>\<open>Create\<close> returns
  holds the same pointer as the entry it installed, so the buffers live in an explicit
  store and the map and the handles hold addresses. The package only ever stores the
  result of \<^verbatim>\<open>new(bytes.Buffer)\<close>, which is never \<^verbatim>\<open>nil\<close>, and Go has no dangling pointers:
  every address holds a buffer. \<open>fresh\<close> is the address the next \<^verbatim>\<open>new\<close> hands out.

  A \<^verbatim>\<open>bytes.Buffer\<close> is modelled by its unread bytes, which is what \<^verbatim>\<open>Bytes()\<close> returns;
  \<^verbatim>\<open>Write(p)\<close> appends \<^verbatim>\<open>p\<close> to them and returns \<^verbatim>\<open>len(p)\<close> and a \<^verbatim>\<open>nil\<close> error. The limit on
  the size of a buffer (\<^verbatim>\<open>bytes.ErrTooLarge\<close>) is outside the model.
\<close>

type_synonym addr = nat

record store =
  buffers :: "addr \<Rightarrow> byte list"
  fresh :: addr

definition empty_store :: store where
  "empty_store = \<lparr>buffers = (\<lambda>_. []), fresh = 0\<rparr>"

definition new_Buffer :: "store \<Rightarrow> addr \<times> store" where
  "new_Buffer st =
     (fresh st, st\<lparr>buffers := (buffers st)(fresh st := []), fresh := Suc (fresh st)\<rparr>)"

definition Buffer_Write :: "store \<Rightarrow> addr \<Rightarrow> byte list \<Rightarrow> (int \<times> error option) \<times> store" where
  "Buffer_Write st a p =
     ((int (length p), None), st\<lparr>buffers := (buffers st)(a := buffers st a @ p)\<rparr>)"

definition Buffer_Bytes :: "store \<Rightarrow> addr \<Rightarrow> byte list" where
  "Buffer_Bytes st a = buffers st a"

subsection \<open>FakeFI\<close>

text \<open>
  \<^verbatim>\<open>FakeFI\<close> embeds an \<^verbatim>\<open>os.FileInfo\<close> that \<^verbatim>\<open>NewFakeFI\<close> leaves \<^verbatim>\<open>nil\<close> and that no code of
  the package calls; its own state is the flag \<^verbatim>\<open>isDir\<close>. \<^verbatim>\<open>NewFakeFI\<close> returns a pointer to
  a new struct each time, so a stub is a value of its own here.
\<close>

record FakeFI =
  isDir :: bool

definition NewFakeFI :: FakeFI where
  "NewFakeFI = \<lparr>isDir = False\<rparr>"

definition IsDir :: "FakeFI \<Rightarrow> bool" where
  "IsDir ffi = isDir ffi"

definition SetIsDir :: "FakeFI \<Rightarrow> bool \<Rightarrow> FakeFI" where
  "SetIsDir ffi d = ffi\<lparr>isDir := d\<rparr>"

subsection \<open>FakeFS and inMemoryCloser\<close>

record FakeFS =
  Files :: "(string, addr) gomap"

definition NewFakeFS :: FakeFS where
  "NewFakeFS = \<lparr>Files = Some Map.empty\<rparr>"

record inMemoryCloser =
  buf :: addr

definition inMemoryCloser_Write ::
  "store \<Rightarrow> inMemoryCloser \<Rightarrow> byte list \<Rightarrow> (int \<times> error option) \<times> store" where
  "inMemoryCloser_Write st i b = Buffer_Write st (buf i) b"

definition inMemoryCloser_Close :: "store \<Rightarrow> inMemoryCloser \<Rightarrow> error option \<times> store" where
  "inMemoryCloser_Close st i = (None, st)"

text \<open>\<^verbatim>\<open>ReadFile\<close> and \<^verbatim>\<open>Stat\<close> assign to nothing: they return their results only.\<close>

definition ReadFile :: "store \<Rightarrow> FakeFS \<Rightarrow> string \<Rightarrow> error + byte list" where
  "ReadFile st f name =
     (case lookup (Files f) name of
        None \<Rightarrow> Inl (FakeFileNotFound name)
      | Some b \<Rightarrow> Inr (Buffer_Bytes st b))"

definition RemoveAll :: "FakeFS \<Rightarrow> string \<Rightarrow> error option \<times> FakeFS" where
  "RemoveAll f name =
     (case lookup (Files f) name of
        None \<Rightarrow> (Some (FakeFileNotFound name), f)
      | Some _ \<Rightarrow> (None, f\<lparr>Files := delete (Files f) name\<rparr>))"

definition Stat :: "store \<Rightarrow> FakeFS \<Rightarrow> string \<Rightarrow> error + FakeFI" where
  "Stat st f path =
     (case ReadFile st f path of
        Inl err \<Rightarrow> Inl ErrNotExist
      | Inr _ \<Rightarrow> Inr NewFakeFI)"

definition Create ::
  "store \<Rightarrow> FakeFS \<Rightarrow> string \<Rightarrow> panic + (inMemoryCloser \<times> error option) \<times> store \<times> FakeFS" where
  "Create st f path =
     (let (b, st') = new_Buffer st in
      case assign (Files f) path b of
        Inl e \<Rightarrow> Inl e
      | Inr m \<Rightarrow> Inr ((\<lparr>buf = b\<rparr>, None), st', f\<lparr>Files := m\<rparr>))"

definition MkdirAll ::
  "store \<Rightarrow> FakeFS \<Rightarrow> string \<Rightarrow> FileMode \<Rightarrow> panic + error option \<times> store \<times> FakeFS" where
  "MkdirAll st f dirName perm =
     (case Create st f dirName of
        Inl e \<Rightarrow> Inl e
      | Inr ((_, err), st', f') \<Rightarrow> Inr (err, st', f'))"

definition WriteFile ::
  "store \<Rightarrow> FakeFS \<Rightarrow> string \<Rightarrow> byte list \<Rightarrow> FileMode
     \<Rightarrow> panic + (int \<times> error option) \<times> store \<times> FakeFS" where
  "WriteFile st f filename data perm =
     (let (b, st') = new_Buffer st in
      case assign (Files f) filename b of
        Inl e \<Rightarrow> Inl e
      | Inr m \<Rightarrow>
          (case lookup m filename of
             None \<Rightarrow> Inl NilPointerDereference
           | Some b' \<Rightarrow>
               (let (r, st'') = Buffer_Write st' b' data in Inr (r, st'', f\<lparr>Files := m\<rparr>))))"

subsection \<open>FakeFP\<close>

text \<open>
  \<^verbatim>\<open>FakeFP\<close> embeds a \<^verbatim>\<open>FakeFS\<close> by value; the embedded field has the name of its type.
  \<^verbatim>\<open>NewFakeFP\<close> returns \<^verbatim>\<open>&FakeFP{}\<close>, the zero value: the flag is \<^verbatim>\<open>false\<close> and the
  \<^verbatim>\<open>Files\<close> map of the embedded file system is \<^verbatim>\<open>nil\<close>.
\<close>

record FakeFP =
  FakeFS :: FakeFS
  walkInvoked :: bool

definition NewFakeFP :: FakeFP where
  "NewFakeFP = \<lparr>FakeFS = \<lparr>Files = None\<rparr>, walkInvoked = False\<rparr>"

text \<open>
  A \<^verbatim>\<open>filepath.WalkFunc\<close> is a closure of the caller (a function, not the \<^verbatim>\<open>nil\<close> value
  of the type). It receives the path, the descriptor and an error, works on the caller's
  own state \<open>'w\<close>, and returns an error of the caller's (\<open>'e\<close>, with \<open>None\<close> for \<^verbatim>\<open>nil\<close>) or
  panics with a value of the caller's (\<open>'x\<close>). \<^verbatim>\<open>walkInvoked\<close> is not exported, so it is no
  part of \<open>'w\<close>. \<^verbatim>\<open>Walk\<close> sets the flag first and then returns what the call of the visitor
  returns; a panic of the visitor passes through it, with the flag already set.
\<close>

type_synonym ('x, 'e, 'w) WalkFunc =
  "string \<Rightarrow> FakeFI \<Rightarrow> 'e option \<Rightarrow> 'w \<Rightarrow> ('x + 'e option) \<times> 'w"

definition Walk ::
  "FakeFP \<Rightarrow> string \<Rightarrow> ('x, 'e, 'w) WalkFunc \<Rightarrow> 'w \<Rightarrow> ('x + 'e option) \<times> FakeFP \<times> 'w" where
  "Walk f root walkFunc w =
     (let f' = f\<lparr>walkInvoked := True\<rparr>;
          (r, w') = walkFunc root NewFakeFI None w
      in (r, f', w'))"

subsection \<open>Calls of the package, one at a time\<close>

text \<open>
  What a test does to a fake file system is a sequence of calls: the six methods of
  \<^verbatim>\<open>FakeFS\<close> and the two of a handle. \<open>step\<close> runs one call on the store and the file
  system and gives the value or the error the call returns together with the state it
  leaves, or the panic that ends it. \<open>run\<close> runs a sequence and stops at a panic.
\<close>

datatype call =
    Call_ReadFile string
  | Call_RemoveAll string
  | Call_Stat string
  | Call_MkdirAll string FileMode
  | Call_Create string
  | Call_WriteFile string "byte list" FileMode
  | Call_Write inMemoryCloser "byte list"
  | Call_Close inMemoryCloser

datatype result = Bytes "byte list" | Info FakeFI | Handle inMemoryCloser | Count int | Done

definition returned :: "('a \<Rightarrow> result) \<Rightarrow> 'a \<times> error option \<Rightarrow> error + result" where
  "returned k r = (case snd r of None \<Rightarrow> Inr (k (fst r)) | Some e \<Rightarrow> Inl e)"

fun step :: "call \<Rightarrow> store \<times> FakeFS \<Rightarrow> panic + (error + result) \<times> store \<times> FakeFS" where
  "step (Call_ReadFile name) (st, f) = Inr (map_sum id Bytes (ReadFile st f name), st, f)"
| "step (Call_RemoveAll name) (st, f) =
     (case RemoveAll f name of (err, f') \<Rightarrow> Inr (returned (\<lambda>_. Done) ((), err), st, f'))"
| "step (Call_Stat path) (st, f) = Inr (map_sum id Info (Stat st f path), st, f)"
| "step (Call_MkdirAll dirName perm) (st, f) =
     (case MkdirAll st f dirName perm of
        Inl e \<Rightarrow> Inl e
      | Inr (err, st', f') \<Rightarrow> Inr (returned (\<lambda>_. Done) ((), err), st', f'))"
| "step (Call_Create path) (st, f) =
     (case Create st f path of
        Inl e \<Rightarrow> Inl e
      | Inr (r, st', f') \<Rightarrow> Inr (returned Handle r, st', f'))"
| "step (Call_WriteFile filename data perm) (st, f) =
     (case WriteFile st f filename data perm of
        Inl e \<Rightarrow> Inl e
      | Inr (r, st', f') \<Rightarrow> Inr (returned Count r, st', f'))"
| "step (Call_Write i b) (st, f) =
     (case inMemoryCloser_Write st i b of (r, st') \<Rightarrow> Inr (returned Count r, st', f))"
| "step (Call_Close i) (st, f) =
     (case inMemoryCloser_Close st i of (err, st') \<Rightarrow> Inr (returned (\<lambda>_. Done) ((), err), st', f))"

fun run :: "call list \<Rightarrow> store \<times> FakeFS \<Rightarrow> panic + store \<times> FakeFS" where
  "run [] s = Inr s"
| "run (c # cs) s = (case step c s of Inl e \<Rightarrow> Inl e | Inr (_, s') \<Rightarrow> run cs s')"

text \<open>
  The calls that install an entry at the path \<open>p\<close>; the calls that change what
  \<^verbatim>\<open>ReadFile(p)\<close> returns while the buffer of \<open>p\<close> is at the address \<open>a\<close> (those, the removal
  of \<open>p\<close>, and a write through a handle on that buffer); and the calls that only read.
\<close>

fun writes_to :: "string \<Rightarrow> call \<Rightarrow> bool" where
  "writes_to p (Call_MkdirAll dirName _) = (dirName = p)"
| "writes_to p (Call_Create path) = (path = p)"
| "writes_to p (Call_WriteFile filename _ _) = (filename = p)"
| "writes_to p _ = False"

fun operates_on :: "string \<Rightarrow> addr \<Rightarrow> call \<Rightarrow> bool" where
  "operates_on p a (Call_RemoveAll name) = (name = p)"
| "operates_on p a (Call_Write i _) = (buf i = a)"
| "operates_on p a c = writes_to p c"

fun reads_only :: "call \<Rightarrow> bool" where
  "reads_only (Call_ReadFile _) = True"
| "reads_only (Call_Stat _) = True"
| "reads_only _ = False"

text \<open>
  The path \<open>p\<close> has an entry, its buffer is at the address \<open>a\<close>, which \<^verbatim>\<open>new\<close> has handed
  out before, and the buffer holds the bytes \<open>d\<close>.
\<close>

definition holds :: "store \<Rightarrow> FakeFS \<Rightarrow> string \<Rightarrow> addr \<Rightarrow> byte list \<Rightarrow> bool" where
  "holds st f p a d \<longleftrightarrow> lookup (Files f) p = Some a \<and> a < fresh st \<and> buffers st a = d"

text \<open>
  A visitor of the caller that keeps a list of the calls it receives, beside whatever
  the visitor \<open>v\<close> does: the list shows how often and with what \<^verbatim>\<open>Walk\<close> has called it.
\<close>

definition traced ::
  "('x, 'e, 'w) WalkFunc \<Rightarrow> ('x, 'e, 'w \<times> (string \<times> FakeFI \<times> 'e option) list) WalkFunc" where
  "traced v path info err =
     (\<lambda>(w, calls). let (r, w') = v path info err w in (r, (w', calls @ [(path, info, err)])))"

subsection \<open>Concrete values for the examples\<close>

text \<open>
  The bytes of \<^verbatim>\<open>"hello"\<close> and of \<^verbatim>\<open>"world"\<close>; a file system with the one file \<^verbatim>\<open>a.txt\<close>,
  whose buffer is at address 0 and holds \<^verbatim>\<open>"hello"\<close>; a sequence of calls that never writes
  \<^verbatim>\<open>missing.txt\<close>; a sequence that leaves \<^verbatim>\<open>a.txt\<close> alone; and a visitor that counts its
  calls and returns the error \<^verbatim>\<open>"stop"\<close>.
\<close>

definition hello :: "byte list" where
  "hello = [104, 101, 108, 108, 111]"

definition world :: "byte list" where
  "world = [119, 111, 114, 108, 100]"

definition one_file :: FakeFS where
  "one_file = \<lparr>Files = Some (Map.empty(''a.txt'' \<mapsto> 0))\<rparr>"

definition one_buffer :: store where
  "one_buffer = \<lparr>buffers = (\<lambda>_. [])(0 := hello), fresh = 1\<rparr>"

definition some_calls :: "call list" where
  "some_calls =
     [Call_WriteFile ''a.txt'' hello 420, Call_Create ''b.txt'', Call_Write \<lparr>buf = 1\<rparr> hello,
      Call_RemoveAll ''a.txt'', Call_Stat ''missing.txt'']"

definition other_calls :: "call list" where
  "other_calls =
     [Call_WriteFile ''b.txt'' world 420, Call_ReadFile ''a.txt'', Call_RemoveAll ''b.txt'']"

definition stop_visitor :: "(string, string, nat) WalkFunc" where
  "stop_visitor path info err n = (Inr (Some ''stop''), Suc n)"

section \<open>Properties\<close>

subsection \<open>What the methods compute\<close>

lemma ReadFile_absent:
  "lookup (Files f) p = None \<Longrightarrow> ReadFile st f p = Inl (FakeFileNotFound p)"
  by (simp add: ReadFile_def)

lemma ReadFile_present:
  "lookup (Files f) p = Some a \<Longrightarrow> ReadFile st f p = Inr (buffers st a)"
  by (simp add: ReadFile_def Buffer_Bytes_def)

lemma RemoveAll_absent:
  "lookup (Files f) p = None \<Longrightarrow> RemoveAll f p = (Some (FakeFileNotFound p), f)"
  by (simp add: RemoveAll_def)

lemma lookup_delete: "lookup (delete m k) k' = (if k' = k then None else lookup m k')"
  by (simp add: lookup_def delete_def split: option.splits)

lemma WriteFile_Some:
  "Files f = Some t \<Longrightarrow>
   WriteFile st f p data m =
     Inr ((int (length data), None),
          \<lparr>buffers = (buffers st)(fresh st := data), fresh = Suc (fresh st)\<rparr>,
          f\<lparr>Files := Some (t(p \<mapsto> fresh st))\<rparr>)"
  by (simp add: WriteFile_def new_Buffer_def assign_def lookup_def Buffer_Write_def)

lemma WriteFile_None: "Files f = None \<Longrightarrow> WriteFile st f p data m = Inl AssignToNilMap"
  by (simp add: WriteFile_def new_Buffer_def assign_def)

lemma Create_Some:
  "Files f = Some t \<Longrightarrow>
   Create st f p =
     Inr ((\<lparr>buf = fresh st\<rparr>, None),
          \<lparr>buffers = (buffers st)(fresh st := []), fresh = Suc (fresh st)\<rparr>,
          f\<lparr>Files := Some (t(p \<mapsto> fresh st))\<rparr>)"
  by (simp add: Create_def new_Buffer_def assign_def)

lemma Create_None: "Files f = None \<Longrightarrow> Create st f p = Inl AssignToNilMap"
  by (simp add: Create_def new_Buffer_def assign_def)

lemma MkdirAll_Some:
  "Files f = Some t \<Longrightarrow>
   MkdirAll st f p m =
     Inr (None,
          \<lparr>buffers = (buffers st)(fresh st := []), fresh = Suc (fresh st)\<rparr>,
          f\<lparr>Files := Some (t(p \<mapsto> fresh st))\<rparr>)"
  by (simp add: MkdirAll_def Create_Some)

lemma MkdirAll_None: "Files f = None \<Longrightarrow> MkdirAll st f p m = Inl AssignToNilMap"
  by (simp add: MkdirAll_def Create_None)

text \<open>A writing method that returns has found a map, and its result is the one above.\<close>

lemma WriteFile_Inr:
  assumes "WriteFile st f p data m = Inr (r, st', f')"
  shows "\<exists>t. Files f = Some t \<and> r = (int (length data), None)
           \<and> st' = \<lparr>buffers = (buffers st)(fresh st := data), fresh = Suc (fresh st)\<rparr>
           \<and> f' = f\<lparr>Files := Some (t(p \<mapsto> fresh st))\<rparr>"
proof (cases "Files f")
  case None
  with assms show ?thesis by (simp add: WriteFile_None)
next
  case (Some t)
  with assms show ?thesis by (simp add: WriteFile_Some)
qed

lemma Create_Inr:
  assumes "Create st f p = Inr (r, st', f')"
  shows "\<exists>t. Files f = Some t \<and> r = (\<lparr>buf = fresh st\<rparr>, None)
           \<and> st' = \<lparr>buffers = (buffers st)(fresh st := []), fresh = Suc (fresh st)\<rparr>
           \<and> f' = f\<lparr>Files := Some (t(p \<mapsto> fresh st))\<rparr>"
proof (cases "Files f")
  case None
  with assms show ?thesis by (simp add: Create_None)
next
  case (Some t)
  with assms show ?thesis by (simp add: Create_Some)
qed

lemma MkdirAll_Inr:
  assumes "MkdirAll st f p m = Inr (r, st', f')"
  shows "\<exists>t. Files f = Some t \<and> r = None
           \<and> st' = \<lparr>buffers = (buffers st)(fresh st := []), fresh = Suc (fresh st)\<rparr>
           \<and> f' = f\<lparr>Files := Some (t(p \<mapsto> fresh st))\<rparr>"
proof (cases "Files f")
  case None
  with assms show ?thesis by (simp add: MkdirAll_None)
next
  case (Some t)
  with assms show ?thesis by (simp add: MkdirAll_Some)
qed

subsection \<open>What a call keeps\<close>

text \<open>No call turns an initialised map into a \<^verbatim>\<open>nil\<close> one, and on such a map no call panics.\<close>

lemma step_initialised:
  assumes "Files f \<noteq> None"
  shows "\<exists>r st' f'. step c (st, f) = Inr (r, st', f') \<and> Files f' \<noteq> None"
proof -
  from assms obtain t where t: "Files f = Some t" by auto
  show ?thesis
  proof (cases c)
    case (Call_RemoveAll x)
    then show ?thesis
      by (simp add: RemoveAll_def t delete_def split: option.splits)
  next
    case (Call_MkdirAll x m)
    then show ?thesis by (simp add: MkdirAll_Some [OF t])
  next
    case (Call_Create x)
    then show ?thesis by (simp add: Create_Some [OF t])
  next
    case (Call_WriteFile x d m)
    then show ?thesis by (simp add: WriteFile_Some [OF t])
  next
    case (Call_Write i b)
    then show ?thesis by (simp add: t split: prod.splits)
  next
    case (Call_Close i)
    then show ?thesis by (simp add: t split: prod.splits)
  qed (simp_all add: t)
qed

lemma run_initialised:
  "Files f \<noteq> None \<Longrightarrow> \<exists>st' f'. run cs (st, f) = Inr (st', f') \<and> Files f' \<noteq> None"
proof (induction cs arbitrary: st f)
  case Nil
  then show ?case by simp
next
  case (Cons c cs)
  from step_initialised [OF Cons.prems, of c st]
  obtain r st1 f1 where s: "step c (st, f) = Inr (r, st1, f1)" and n: "Files f1 \<noteq> None"
    by blast
  from Cons.IH [OF n, of st1] s show ?case by simp
qed

text \<open>A path without an entry stays so under every call that does not install one.\<close>

lemma step_keeps_absent:
  assumes "step c (st, f) = Inr (r, st', f')" "\<not> writes_to p c" "lookup (Files f) p = None"
  shows "lookup (Files f') p = None"
proof (cases c)
  case (Call_ReadFile x)
  with assms show ?thesis by simp
next
  case (Call_RemoveAll x)
  with assms show ?thesis
    by (auto simp: RemoveAll_def lookup_delete split: option.splits)
next
  case (Call_Stat x)
  with assms show ?thesis by simp
next
  case (Call_MkdirAll x m)
  with assms show ?thesis
    by (auto simp: lookup_def split: sum.splits dest!: MkdirAll_Inr)
next
  case (Call_Create x)
  with assms show ?thesis
    by (auto simp: lookup_def split: sum.splits dest!: Create_Inr)
next
  case (Call_WriteFile x d m)
  with assms show ?thesis
    by (auto simp: lookup_def split: sum.splits dest!: WriteFile_Inr)
next
  case (Call_Write i b)
  with assms show ?thesis by (auto split: prod.splits)
next
  case (Call_Close i)
  with assms show ?thesis by (auto split: prod.splits)
qed

lemma run_keeps_absent:
  "run cs (st, f) = Inr (st', f') \<Longrightarrow> \<forall>c\<in>set cs. \<not> writes_to p c \<Longrightarrow>
   lookup (Files f) p = None \<Longrightarrow> lookup (Files f') p = None"
proof (induction cs arbitrary: st f)
  case Nil
  then show ?case by simp
next
  case (Cons c cs)
  from Cons.prems(1) obtain r st1 f1 where s: "step c (st, f) = Inr (r, st1, f1)"
    and r: "run cs (st1, f1) = Inr (st', f')"
    by (auto split: sum.splits)
  from s Cons.prems have "lookup (Files f1) p = None"
    by (auto intro: step_keeps_absent)
  with r Cons.prems show ?case by (auto intro: Cons.IH)
qed

text \<open>
  The entry of \<open>p\<close> and the bytes of its buffer stay under every call that does not
  operate on \<open>p\<close>: a buffer that \<^verbatim>\<open>new\<close> hands out later has another address.
\<close>

lemma step_keeps_file:
  assumes "step c (st, f) = Inr (r, st', f')" "\<not> operates_on p a c" "holds st f p a d"
  shows "holds st' f' p a d"
proof (cases c)
  case (Call_ReadFile x)
  with assms show ?thesis by simp
next
  case (Call_RemoveAll x)
  with assms show ?thesis
    by (auto simp: holds_def RemoveAll_def lookup_delete split: option.splits)
next
  case (Call_Stat x)
  with assms show ?thesis by simp
next
  case (Call_MkdirAll x m)
  with assms show ?thesis
    by (auto simp: holds_def lookup_def split: sum.splits dest!: MkdirAll_Inr)
next
  case (Call_Create x)
  with assms show ?thesis
    by (auto simp: holds_def lookup_def split: sum.splits dest!: Create_Inr)
next
  case (Call_WriteFile x d m)
  with assms show ?thesis
    by (auto simp: holds_def lookup_def split: sum.splits dest!: WriteFile_Inr)
next
  case (Call_Write i b)
  with assms show ?thesis
    by (auto simp: holds_def inMemoryCloser_Write_def Buffer_Write_def)
next
  case (Call_Close i)
  with assms show ?thesis
    by (auto simp: holds_def inMemoryCloser_Close_def)
qed

lemma run_keeps_file:
  "run cs (st, f) = Inr (st', f') \<Longrightarrow> \<forall>c\<in>set cs. \<not> operates_on p a c \<Longrightarrow>
   holds st f p a d \<Longrightarrow> holds st' f' p a d"
proof (induction cs arbitrary: st f)
  case Nil
  then show ?case by simp
next
  case (Cons c cs)
  from Cons.prems(1) obtain r st1 f1 where s: "step c (st, f) = Inr (r, st1, f1)"
    and r: "run cs (st1, f1) = Inr (st', f')"
    by (auto split: sum.splits)
  from s Cons.prems have "holds st1 f1 p a d"
    by (auto intro: step_keeps_file)
  with r Cons.prems show ?case by (auto intro: Cons.IH)
qed

lemma holds_ReadFile: "holds st f p a d \<Longrightarrow> ReadFile st f p = Inr d"
  by (simp add: holds_def ReadFile_present)

text \<open>A call that returns an error, and a call that only reads, leave the state as it was.\<close>

lemma step_error_unchanged:
  assumes "step c (st, f) = Inr (Inl e, st', f')"
  shows "st' = st \<and> f' = f"
proof (cases c)
  case (Call_ReadFile x)
  with assms show ?thesis by simp
next
  case (Call_RemoveAll x)
  with assms show ?thesis
    by (auto simp: RemoveAll_def returned_def split: option.splits)
next
  case (Call_Stat x)
  with assms show ?thesis by simp
next
  case (Call_MkdirAll x m)
  with assms show ?thesis
    by (auto simp: returned_def split: sum.splits dest!: MkdirAll_Inr)
next
  case (Call_Create x)
  with assms show ?thesis
    by (auto simp: returned_def split: sum.splits dest!: Create_Inr)
next
  case (Call_WriteFile x d m)
  with assms show ?thesis
    by (auto simp: returned_def split: sum.splits dest!: WriteFile_Inr)
next
  case (Call_Write i b)
  with assms show ?thesis
    by (auto simp: returned_def inMemoryCloser_Write_def Buffer_Write_def)
next
  case (Call_Close i)
  with assms show ?thesis
    by (auto simp: returned_def inMemoryCloser_Close_def)
qed

lemma step_read_unchanged:
  assumes "step c (st, f) = Inr (r, st', f')" "reads_only c"
  shows "st' = st \<and> f' = f"
  using assms by (cases c) auto

subsection \<open>C1: writing a file and reading it back\<close>

text \<open>
  C1 as stated, for every \<^verbatim>\<open>FakeFS\<close>, fails. On a \<^verbatim>\<open>FakeFS\<close> whose \<^verbatim>\<open>Files\<close> map is \<^verbatim>\<open>nil\<close>,
  as the one embedded in the result of \<^verbatim>\<open>NewFakeFP\<close> is, \<^verbatim>\<open>WriteFile\<close> does not return the
  length of the data and a \<^verbatim>\<open>nil\<close> error: the assignment \<^verbatim>\<open>f.Files[filename] = ...\<close> panics.
\<close>

theorem WriteFile_nil_map_counterexample:
  "WriteFile empty_store (FakeFS NewFakeFP) ''a.txt'' hello 420 = Inl AssignToNilMap"
  by (simp add: WriteFile_None NewFakeFP_def)

text \<open>
  C1, amended: on a \<^verbatim>\<open>FakeFS\<close> whose \<^verbatim>\<open>Files\<close> map is not \<^verbatim>\<open>nil\<close>, for every path \<open>p\<close>, byte
  sequence \<open>data\<close> and mode \<open>m\<close>, \<^verbatim>\<open>WriteFile(p, data, m)\<close> returns the length of \<open>data\<close> and
  a \<^verbatim>\<open>nil\<close> error, and \<^verbatim>\<open>ReadFile(p)\<close> returns exactly \<open>data\<close>, right after it and after any
  calls in between that do not operate on \<open>p\<close>.
\<close>

theorem WriteFile_ReadFile_roundtrip:
  assumes "Files f \<noteq> None"
  shows "\<exists>st' f'. WriteFile st f p data m = Inr ((int (length data), None), st', f')
           \<and> ReadFile st' f' p = Inr data
           \<and> (\<forall>cs st'' f''. (\<forall>c\<in>set cs. \<not> operates_on p (fresh st) c) \<longrightarrow>
                  run cs (st', f') = Inr (st'', f'') \<longrightarrow> ReadFile st'' f'' p = Inr data)"
proof -
  from assms obtain t where t: "Files f = Some t" by auto
  let ?st = "\<lparr>buffers = (buffers st)(fresh st := data), fresh = Suc (fresh st)\<rparr>"
  let ?f = "f\<lparr>Files := Some (t(p \<mapsto> fresh st))\<rparr>"
  have h: "holds ?st ?f p (fresh st) data"
    by (simp add: holds_def lookup_def)
  have "ReadFile st'' f'' p = Inr data"
    if "\<forall>c\<in>set cs. \<not> operates_on p (fresh st) c" "run cs (?st, ?f) = Inr (st'', f'')"
    for cs st'' f''
    using run_keeps_file [OF that(2) that(1) h] by (rule holds_ReadFile)
  with holds_ReadFile [OF h] show ?thesis
    by (simp add: WriteFile_Some [OF t])
qed

text \<open>
  The scenario of the specification: on a new file system, \<^verbatim>\<open>"hello"\<close> written to
  \<^verbatim>\<open>a.txt\<close> is read back, also after \<^verbatim>\<open>b.txt\<close> has been written and removed.
\<close>

theorem WriteFile_ReadFile_roundtrip_witness:
  "Files NewFakeFS \<noteq> None \<and>
   list_all (\<lambda>c. \<not> operates_on ''a.txt'' (fresh empty_store) c) other_calls \<and>
   (\<exists>st' f' st'' f''.
      WriteFile empty_store NewFakeFS ''a.txt'' hello 420 = Inr ((5, None), st', f')
      \<and> ReadFile st' f' ''a.txt'' = Inr hello
      \<and> run other_calls (st', f') = Inr (st'', f'')
      \<and> ReadFile st'' f'' ''a.txt'' = Inr hello)"
proof -
  have h: "Files NewFakeFS \<noteq> None" by (simp add: NewFakeFS_def)
  have o: "\<forall>c\<in>set other_calls. \<not> operates_on ''a.txt'' (fresh empty_store) c"
    by (simp add: other_calls_def)
  have l: "int (length hello) = 5" by (simp add: hello_def)
  from WriteFile_ReadFile_roundtrip [OF h, of empty_store "''a.txt''" hello 420]
  obtain st' f' where w: "WriteFile empty_store NewFakeFS ''a.txt'' hello 420 = Inr ((5, None), st', f')"
    and r: "ReadFile st' f' ''a.txt'' = Inr hello"
    and k: "\<And>cs st'' f''. \<forall>c\<in>set cs. \<not> operates_on ''a.txt'' (fresh empty_store) c \<Longrightarrow>
              run cs (st', f') = Inr (st'', f'') \<Longrightarrow> ReadFile st'' f'' ''a.txt'' = Inr hello"
    unfolding l by blast
  from WriteFile_Inr [OF w] have "Files f' \<noteq> None" by auto
  from run_initialised [OF this, of other_calls st']
  obtain st'' f'' where u: "run other_calls (st', f') = Inr (st'', f'')" by blast
  from k [OF o u] h o w r u show ?thesis by (auto simp: list_all_iff)
qed


subsection \<open>C2: reading a path that was never written\<close>

text \<open>
  C2: on a file system that \<^verbatim>\<open>NewFakeFS\<close> has made, after any calls none of which is a
  \<^verbatim>\<open>WriteFile\<close>, a \<^verbatim>\<open>Create\<close> or a \<^verbatim>\<open>MkdirAll\<close> on the path \<open>p\<close>, \<^verbatim>\<open>ReadFile(p)\<close> fails with the
  error \<^verbatim>\<open>FakeFileNotFound\<close> whose \<^verbatim>\<open>Filename\<close> is \<open>p\<close>; the calls themselves all return. On
  the new file system, \<^verbatim>\<open>ReadFile("missing.txt")\<close> returns
  \<^verbatim>\<open>FakeFileNotFound{Filename: "missing.txt"}\<close>.
\<close>

theorem ReadFile_never_written:
  assumes "\<forall>c\<in>set cs. \<not> writes_to p c"
  shows "(\<exists>st f. run cs (st0, NewFakeFS) = Inr (st, f) \<and> ReadFile st f p = Inl (FakeFileNotFound p))
         \<and> Filename (FakeFileNotFound p) = p
         \<and> ReadFile st0 NewFakeFS ''missing.txt'' = Inl (FakeFileNotFound ''missing.txt'')"
proof -
  have e: "lookup (Files NewFakeFS) q = None" for q
    by (simp add: NewFakeFS_def lookup_def)
  have "Files NewFakeFS \<noteq> None" by (simp add: NewFakeFS_def)
  from run_initialised [OF this, of cs st0]
  obtain st f where r: "run cs (st0, NewFakeFS) = Inr (st, f)" by blast
  from run_keeps_absent [OF r assms e] have "ReadFile st f p = Inl (FakeFileNotFound p)"
    by (rule ReadFile_absent)
  with r show ?thesis by (auto simp: e ReadFile_absent)
qed

theorem ReadFile_never_written_witness:
  "list_all (\<lambda>c. \<not> writes_to ''missing.txt'' c) some_calls
   \<and> (\<exists>st f. run some_calls (empty_store, NewFakeFS) = Inr (st, f)
         \<and> ReadFile st f ''missing.txt'' = Inl (FakeFileNotFound ''missing.txt''))"
proof -
  have n: "\<forall>c\<in>set some_calls. \<not> writes_to ''missing.txt'' c"
    by (simp add: some_calls_def)
  from ReadFile_never_written [OF n, of empty_store] n
  show ?thesis by (auto simp: list_all_iff)
qed

subsection \<open>C3: the second write replaces the first\<close>

text \<open>
  C3: for every path \<open>p\<close> and byte sequences \<open>data1\<close> and \<open>data2\<close>, after
  \<^verbatim>\<open>WriteFile(p, data1, m)\<close> has returned, \<^verbatim>\<open>WriteFile(p, data2, m)\<close> returns as well, and
  \<^verbatim>\<open>ReadFile(p)\<close> then returns exactly \<open>data2\<close>: nothing of \<open>data1\<close> is left.
\<close>

theorem WriteFile_overwrites:
  assumes "WriteFile st f p data1 m = Inr (r1, st1, f1)"
  shows "\<exists>r2 st2 f2. WriteFile st1 f1 p data2 m = Inr (r2, st2, f2)
           \<and> ReadFile st2 f2 p = Inr data2"
proof -
  from WriteFile_Inr [OF assms] obtain t where "Files f1 = Some (t(p \<mapsto> fresh st))"
    by auto
  then show ?thesis
    by (simp add: WriteFile_Some ReadFile_def lookup_def Buffer_Bytes_def)
qed

theorem WriteFile_overwrites_witness:
  "\<exists>r1 st1 f1 r2 st2 f2.
     WriteFile empty_store NewFakeFS ''a.txt'' hello 420 = Inr (r1, st1, f1)
     \<and> WriteFile st1 f1 ''a.txt'' world 420 = Inr (r2, st2, f2)
     \<and> ReadFile st2 f2 ''a.txt'' = Inr world"
proof -
  have t: "Files NewFakeFS = Some Map.empty" by (simp add: NewFakeFS_def)
  obtain r1 st1 f1 where w: "WriteFile empty_store NewFakeFS ''a.txt'' hello 420 = Inr (r1, st1, f1)"
    by (simp add: WriteFile_Some [OF t])
  from WriteFile_overwrites [OF w, of world] w show ?thesis by blast
qed

subsection \<open>C4: Create and the handle it returns\<close>

text \<open>
  C4 as stated, for every state of a \<^verbatim>\<open>FakeFS\<close>, fails: in the state that \<^verbatim>\<open>NewFakeFP\<close>
  leaves its embedded file system in, with a \<^verbatim>\<open>nil\<close> map, \<^verbatim>\<open>Create\<close> does not succeed: the
  assignment \<^verbatim>\<open>f.Files[path] = buf\<close> panics.
\<close>

theorem Create_nil_map_counterexample:
  "Create empty_store (FakeFS NewFakeFP) ''out.txt'' = Inl AssignToNilMap"
  by (simp add: Create_None NewFakeFP_def)

text \<open>
  C4, amended: for every state of a \<^verbatim>\<open>FakeFS\<close> whose \<^verbatim>\<open>Files\<close> map is not \<^verbatim>\<open>nil\<close> and every
  path \<open>p\<close>, \<^verbatim>\<open>Create(p)\<close> returns a handle and a \<^verbatim>\<open>nil\<close> error; the entry at \<open>p\<close> is then a
  newly allocated, empty buffer, the one the handle holds, in place of any entry \<open>p\<close>
  had, and the other entries are as before. Writing the bytes \<open>b\<close> through the handle
  returns their length and a \<^verbatim>\<open>nil\<close> error, \<^verbatim>\<open>ReadFile(p)\<close> then returns exactly \<open>b\<close>, and
  \<^verbatim>\<open>Close\<close> on the handle returns \<^verbatim>\<open>nil\<close> and changes nothing.
\<close>

theorem Create_installs_empty_entry:
  assumes "Files f \<noteq> None"
  shows "\<exists>h st' f'. Create st f p = Inr ((h, None), st', f')
           \<and> buf h = fresh st
           \<and> lookup (Files f') p = Some (buf h)
           \<and> (\<forall>q. q \<noteq> p \<longrightarrow> lookup (Files f') q = lookup (Files f) q)
           \<and> ReadFile st' f' p = Inr []
           \<and> (\<forall>b. \<exists>st''. inMemoryCloser_Write st' h b = ((int (length b), None), st'')
                  \<and> ReadFile st'' f' p = Inr b
                  \<and> inMemoryCloser_Close st'' h = (None, st''))"
proof -
  from assms obtain t where t: "Files f = Some t" by auto
  show ?thesis
    by (simp add: Create_Some [OF t] t ReadFile_def lookup_def Buffer_Bytes_def
        inMemoryCloser_Write_def Buffer_Write_def inMemoryCloser_Close_def)
qed

theorem Create_installs_empty_entry_witness:
  "Files one_file \<noteq> None \<and> ReadFile one_buffer one_file ''a.txt'' = Inr hello \<and>
   (\<exists>h st' f'. Create one_buffer one_file ''a.txt'' = Inr ((h, None), st', f')
      \<and> ReadFile st' f' ''a.txt'' = Inr []
      \<and> (\<exists>st''. inMemoryCloser_Write st' h world = ((5, None), st'')
            \<and> ReadFile st'' f' ''a.txt'' = Inr world
            \<and> inMemoryCloser_Close st'' h = (None, st'')))"
proof -
  have h: "Files one_file \<noteq> None" by (simp add: one_file_def)
  have r: "ReadFile one_buffer one_file ''a.txt'' = Inr hello"
    by (simp add: ReadFile_def lookup_def Buffer_Bytes_def one_file_def one_buffer_def)
  have l: "int (length world) = 5" by (simp add: world_def)
  from Create_installs_empty_entry [OF h, of one_buffer "''a.txt''"] h r l
  show ?thesis by (metis (no_types, lifting))
qed

subsection \<open>C5: RemoveAll\<close>

text \<open>
  C5: for every path \<open>p\<close>, \<^verbatim>\<open>RemoveAll(p)\<close> fails with \<^verbatim>\<open>FakeFileNotFound\<close> (of \<open>p\<close>) when no
  entry exists at \<open>p\<close>, and after \<^verbatim>\<open>WriteFile(p, data, m)\<close> has returned, \<^verbatim>\<open>RemoveAll(p)\<close>
  returns \<^verbatim>\<open>nil\<close> and \<^verbatim>\<open>ReadFile(p)\<close> then fails with \<^verbatim>\<open>FakeFileNotFound\<close>.
\<close>

theorem RemoveAll_absent_and_after_write:
  "(lookup (Files f) p = None \<longrightarrow> RemoveAll f p = (Some (FakeFileNotFound p), f)) \<and>
   (WriteFile st f p data m = Inr (r, st', f') \<longrightarrow>
      (\<exists>f''. RemoveAll f' p = (None, f'') \<and> ReadFile st' f'' p = Inl (FakeFileNotFound p)))"
proof (intro conjI impI)
  assume "lookup (Files f) p = None"
  then show "RemoveAll f p = (Some (FakeFileNotFound p), f)" by (rule RemoveAll_absent)
next
  assume "WriteFile st f p data m = Inr (r, st', f')"
  from WriteFile_Inr [OF this] obtain t where "Files f' = Some (t(p \<mapsto> fresh st))"
    by auto
  then show "\<exists>f''. RemoveAll f' p = (None, f'') \<and> ReadFile st' f'' p = Inl (FakeFileNotFound p)"
    by (simp add: RemoveAll_def ReadFile_def lookup_def delete_def)
qed

theorem RemoveAll_absent_and_after_write_witness:
  "lookup (Files NewFakeFS) ''a.txt'' = None
   \<and> RemoveAll NewFakeFS ''a.txt'' = (Some (FakeFileNotFound ''a.txt''), NewFakeFS)
   \<and> (\<exists>r st' f' f''. WriteFile empty_store NewFakeFS ''a.txt'' hello 420 = Inr (r, st', f')
         \<and> RemoveAll f' ''a.txt'' = (None, f'')
         \<and> ReadFile st' f'' ''a.txt'' = Inl (FakeFileNotFound ''a.txt''))"
proof -
  have t: "Files NewFakeFS = Some Map.empty" by (simp add: NewFakeFS_def)
  have a: "lookup (Files NewFakeFS) ''a.txt'' = None" by (simp add: t lookup_def)
  obtain r st' f' where w: "WriteFile empty_store NewFakeFS ''a.txt'' hello 420 = Inr (r, st', f')"
    by (simp add: WriteFile_Some [OF t])
  from RemoveAll_absent_and_after_write [of NewFakeFS "''a.txt''" empty_store hello 420 r st' f'] a w
  show ?thesis by blast
qed

subsection \<open>C6: Stat\<close>

text \<open>
  C6: for every path \<open>p\<close>, \<^verbatim>\<open>Stat(p)\<close> fails with \<^verbatim>\<open>os.ErrNotExist\<close> when no entry exists at
  \<open>p\<close>, and when an entry exists it returns a descriptor whose \<^verbatim>\<open>IsDir()\<close> is false, until
  the caller sets the flag of that descriptor with \<^verbatim>\<open>SetIsDir\<close>.
\<close>

theorem Stat_absent_and_present:
  "(lookup (Files f) p = None \<longrightarrow> Stat st f p = Inl ErrNotExist) \<and>
   (lookup (Files f) p \<noteq> None \<longrightarrow>
      (\<exists>fi. Stat st f p = Inr fi \<and> \<not> IsDir fi \<and> (\<forall>d. IsDir (SetIsDir fi d) = d)))"
  by (auto simp: Stat_def ReadFile_def NewFakeFI_def IsDir_def SetIsDir_def)

theorem Stat_absent_and_present_witness:
  "lookup (Files one_file) ''missing.txt'' = None
   \<and> Stat one_buffer one_file ''missing.txt'' = Inl ErrNotExist
   \<and> lookup (Files one_file) ''a.txt'' \<noteq> None
   \<and> (\<exists>fi. Stat one_buffer one_file ''a.txt'' = Inr fi \<and> \<not> IsDir fi)"
proof -
  have a: "lookup (Files one_file) ''missing.txt'' = None"
    by (simp add: one_file_def lookup_def)
  have b: "lookup (Files one_file) ''a.txt'' \<noteq> None"
    by (simp add: one_file_def lookup_def)
  from Stat_absent_and_present [of one_file "''missing.txt''" one_buffer]
       Stat_absent_and_present [of one_file "''a.txt''" one_buffer] a b
  show ?thesis by blast
qed

subsection \<open>C7: MkdirAll\<close>

text \<open>
  C7 as stated, for every state of a \<^verbatim>\<open>FakeFS\<close>, fails: in the state that \<^verbatim>\<open>NewFakeFP\<close>
  leaves its embedded file system in, with a \<^verbatim>\<open>nil\<close> map, \<^verbatim>\<open>MkdirAll\<close> does not succeed: the
  assignment in \<^verbatim>\<open>Create\<close>, which it calls, panics.
\<close>

theorem MkdirAll_nil_map_counterexample:
  "MkdirAll empty_store (FakeFS NewFakeFP) ''dir'' 493 = Inl AssignToNilMap"
  by (simp add: MkdirAll_None NewFakeFP_def)

text \<open>
  C7, amended: for every state of a \<^verbatim>\<open>FakeFS\<close> whose \<^verbatim>\<open>Files\<close> map is not \<^verbatim>\<open>nil\<close>, every path
  \<open>p\<close> and mode \<open>m\<close>, \<^verbatim>\<open>MkdirAll(p, m)\<close> returns \<^verbatim>\<open>nil\<close>; afterwards \<^verbatim>\<open>ReadFile(p)\<close> returns the
  empty byte sequence and \<^verbatim>\<open>Stat(p)\<close> a descriptor whose \<^verbatim>\<open>IsDir()\<close> is false, whatever
  \<open>p\<close> held before. The state it leaves is the very state that writing an empty file to
  \<open>p\<close> leaves.
\<close>

theorem MkdirAll_is_empty_file:
  assumes "Files f \<noteq> None"
  shows "\<exists>st' f'. MkdirAll st f p m = Inr (None, st', f')
           \<and> ReadFile st' f' p = Inr []
           \<and> (\<exists>fi. Stat st' f' p = Inr fi \<and> \<not> IsDir fi)
           \<and> WriteFile st f p [] m' = Inr ((0, None), st', f')"
proof -
  from assms obtain t where t: "Files f = Some t" by auto
  show ?thesis
    by (simp add: MkdirAll_Some [OF t] WriteFile_Some [OF t] Stat_def ReadFile_def lookup_def
        Buffer_Bytes_def NewFakeFI_def IsDir_def)
qed

theorem MkdirAll_is_empty_file_witness:
  "Files one_file \<noteq> None \<and> ReadFile one_buffer one_file ''a.txt'' = Inr hello \<and>
   (\<exists>st' f'. MkdirAll one_buffer one_file ''a.txt'' 493 = Inr (None, st', f')
      \<and> ReadFile st' f' ''a.txt'' = Inr []
      \<and> (\<exists>fi. Stat st' f' ''a.txt'' = Inr fi \<and> \<not> IsDir fi))"
proof -
  have h: "Files one_file \<noteq> None" by (simp add: one_file_def)
  have r: "ReadFile one_buffer one_file ''a.txt'' = Inr hello"
    by (simp add: ReadFile_def lookup_def Buffer_Bytes_def one_file_def one_buffer_def)
  from MkdirAll_is_empty_file [OF h, of one_buffer "''a.txt''" 493] h r
  show ?thesis by blast
qed

subsection \<open>C8: Walk calls the visitor once\<close>

text \<open>
  C8: for every root path and every visitor, \<^verbatim>\<open>FakeFP.Walk(root, visitor)\<close> calls the
  visitor exactly once, with the root path, a new \<^verbatim>\<open>FakeFI\<close> whose \<^verbatim>\<open>IsDir()\<close> is false and
  a \<^verbatim>\<open>nil\<close> error, and sets \<^verbatim>\<open>walkInvoked\<close>. The list a traced visitor keeps grows by
  that one call, and the state of the caller is the one a single call of the visitor
  leaves.
\<close>

theorem Walk_invokes_visitor_once:
  "snd (snd (snd (Walk f root (traced v) (w, calls)))) = calls @ [(root, NewFakeFI, None)]
   \<and> \<not> IsDir NewFakeFI
   \<and> walkInvoked (fst (snd (Walk f root (traced v) (w, calls))))
   \<and> fst (snd (snd (Walk f root (traced v) (w, calls)))) = snd (v root NewFakeFI None w)"
  by (simp add: Walk_def traced_def NewFakeFI_def IsDir_def split: prod.splits)

theorem Walk_invokes_visitor_once_witness:
  "snd (snd (snd (Walk NewFakeFP ''root'' (traced stop_visitor) (0, []))))
     = [(''root'', NewFakeFI, None)]
   \<and> fst (snd (snd (Walk NewFakeFP ''root'' (traced stop_visitor) (0, [])))) = 1
   \<and> walkInvoked (fst (snd (Walk NewFakeFP ''root'' (traced stop_visitor) (0, []))))"
  using Walk_invokes_visitor_once [of NewFakeFP "''root''" stop_visitor 0 "[]"]
  by (simp add: stop_visitor_def)

subsection \<open>C9: errors and reads change nothing\<close>

text \<open>
  C9: every call that returns an error leaves the \<^verbatim>\<open>Files\<close> map, and with it the whole
  file system and the store of buffers, exactly as they were; and \<^verbatim>\<open>ReadFile\<close> and \<^verbatim>\<open>Stat\<close>
  leave them so also when they succeed.
\<close>

theorem errors_and_reads_leave_state:
  assumes "step c (st, f) = Inr (r, st', f')" "isl r \<or> reads_only c"
  shows "Files f' = Files f \<and> f' = f \<and> st' = st"
proof -
  from assms(2) have "st' = st \<and> f' = f"
  proof
    assume "isl r"
    then obtain e where "r = Inl e" by (cases r) auto
    with assms(1) show ?thesis by (auto dest: step_error_unchanged)
  next
    assume "reads_only c"
    with assms(1) show ?thesis by (rule step_read_unchanged)
  qed
  then show ?thesis by simp
qed

theorem errors_and_reads_leave_state_witness:
  "step (Call_RemoveAll ''missing.txt'') (one_buffer, one_file)
     = Inr (Inl (FakeFileNotFound ''missing.txt''), one_buffer, one_file)
   \<and> step (Call_ReadFile ''a.txt'') (one_buffer, one_file)
     = Inr (Inr (Bytes hello), one_buffer, one_file)
   \<and> reads_only (Call_ReadFile ''a.txt'')"
proof -
  obtain r st' f' where a: "step (Call_RemoveAll ''missing.txt'') (one_buffer, one_file) = Inr (r, st', f')"
    and ra: "r = Inl (FakeFileNotFound ''missing.txt'')"
    by (simp add: RemoveAll_def lookup_def one_file_def returned_def)
  obtain r2 st2 f2 where b: "step (Call_ReadFile ''a.txt'') (one_buffer, one_file) = Inr (r2, st2, f2)"
    and rb: "r2 = Inr (Bytes hello)"
    by (simp add: ReadFile_def lookup_def one_file_def one_buffer_def Buffer_Bytes_def)
  from ra have ia: "isl r \<or> reads_only (Call_RemoveAll ''missing.txt'')" by simp
  have ib: "isl r2 \<or> reads_only (Call_ReadFile ''a.txt'')" by simp
  from errors_and_reads_leave_state [OF a ia] errors_and_reads_leave_state [OF b ib] a b ra rb
  show ?thesis by simp
qed

subsection \<open>C10: Walk returns what the visitor returns\<close>

text \<open>
  C10: for every root path and visitor, what \<^verbatim>\<open>FakeFP.Walk(root, visitor)\<close> returns is
  exactly what the visitor returns for its one call; an error the visitor returns
  reaches the caller of \<^verbatim>\<open>Walk\<close>, and \<^verbatim>\<open>walkInvoked\<close> is set whatever the visitor returns.
\<close>

theorem Walk_returns_what_visitor_returns:
  "fst (Walk f root v w) = fst (v root NewFakeFI None w)
   \<and> walkInvoked (fst (snd (Walk f root v w)))
   \<and> (fst (v root NewFakeFI None w) = Inr (Some e) \<longrightarrow> fst (Walk f root v w) = Inr (Some e))"
  by (simp add: Walk_def split: prod.splits)

theorem Walk_returns_what_visitor_returns_witness:
  "fst (stop_visitor ''root'' NewFakeFI None 0) = Inr (Some ''stop'')
   \<and> \<not> walkInvoked NewFakeFP
   \<and> fst (Walk NewFakeFP ''root'' stop_visitor 0) = Inr (Some ''stop'')
   \<and> walkInvoked (fst (snd (Walk NewFakeFP ''root'' stop_visitor 0)))"
proof -
  have s: "fst (stop_visitor ''root'' NewFakeFI None 0) = Inr (Some ''stop'')"
    by (simp add: stop_visitor_def)
  from Walk_returns_what_visitor_returns [of NewFakeFP "''root''" stop_visitor 0 "''stop''"] s
  show ?thesis by (simp add: NewFakeFP_def)
qed

end
